theory Spec2Isabelle
  imports Main "HOL-Library.Word" "HOL-Library.Sublist"
begin

section \<open>The SOCKS5 relay of client/proxy.go\<close>

text \<open>
  The relay talks to three collaborators: the client socket (\<open>conn\<close>), the gRPC stream and
  the logger. Each call to one of them is an event of the trace; what the call returns is
  given by a script of the environment, so that every error branch of the source is a branch
  of the model. A script that runs out leaves the goroutine blocked in its next call;
  the datagram socket alone has a read deadline, so that a read of it never blocks for good.
\<close>

subsection \<open>Bytes, errors, events\<close>

type_synonym byte = "8 word"

text \<open>A Go \<open>error\<close>: the sentinel \<open>io.EOF\<close>, or any other error with its message.\<close>

datatype error = EOF | Err string

fun Error_msg :: "error \<Rightarrow> string" where
  "Error_msg EOF = ''EOF''"
| "Error_msg (Err m) = m"

text \<open>\<open>[]byte(s)\<close>.\<close>

definition bytes_of :: "string \<Rightarrow> byte list" where
  "bytes_of s = map of_char s"

text \<open>\<open>strings.Contains(s, sub)\<close>.\<close>

fun Contains :: "string \<Rightarrow> string \<Rightarrow> bool" where
  "Contains [] sub = (sub = [])"
| "Contains (c # cs) sub = (if prefix sub (c # cs) then True else Contains cs sub)"

datatype event =
    GetReqAddr
  | ConnWrite "byte list" "error option"
  | ConnRead "byte list"
  | ConnClose
  | GRPCClient
  | Pipeline
  | StreamSend "byte list" "error option"
  | StreamRecv "byte list"
  | StreamRecvErr error
  | CloseSend
  | Cancel
  | Get
  | Put
  | Go
  | Errorf string string
  | Errorln string
  | Debugf string "string list"
  | ListenPacket
  | SetReadDeadline nat
  | ReadFrom "byte list" "error option"
  | PipelineUDP
  | UDPClose

text \<open>Why a copy loop ended, and how a loop or a function stands when its script is used up.\<close>

datatype cause = ReadErr error | SendErr error | RecvErr error bool | WriteErr error

datatype loop_end = Waiting | Break cause | Panic

datatype outcome = Running | Returned | Panicked

definition emit :: "event list \<Rightarrow> 'a \<times> event list \<Rightarrow> 'a \<times> event list" where
  "emit evs p = (fst p, evs @ snd p)"

subsection \<open>Projections of a trace\<close>

text \<open>The payloads handed to \<open>stream.Send\<close>, in order, whatever the call returned.\<close>

fun sent :: "event list \<Rightarrow> byte list list" where
  "sent [] = []"
| "sent (StreamSend p r # tr) = p # sent tr"
| "sent (_ # tr) = sent tr"

text \<open>The results of the \<open>stream.Send\<close> calls, in order.\<close>

fun send_results :: "event list \<Rightarrow> error option list" where
  "send_results [] = []"
| "send_results (StreamSend p r # tr) = r # send_results tr"
| "send_results (_ # tr) = send_results tr"

text \<open>The chunks \<open>conn.Read\<close> delivered, in order.\<close>

fun read_chunks :: "event list \<Rightarrow> byte list list" where
  "read_chunks [] = []"
| "read_chunks (ConnRead d # tr) = d # read_chunks tr"
| "read_chunks (_ # tr) = read_chunks tr"

text \<open>The arguments of the \<open>conn.Write\<close> calls, in order.\<close>

fun written :: "event list \<Rightarrow> byte list list" where
  "written [] = []"
| "written (ConnWrite d r # tr) = d # written tr"
| "written (_ # tr) = written tr"

text \<open>The results of the \<open>conn.Write\<close> calls, in order.\<close>

fun write_results :: "event list \<Rightarrow> error option list" where
  "write_results [] = []"
| "write_results (ConnWrite d r # tr) = r # write_results tr"
| "write_results (_ # tr) = write_results tr"

text \<open>The payloads of the frames \<open>stream.Recv\<close> returned, in order.\<close>

fun received :: "event list \<Rightarrow> byte list list" where
  "received [] = []"
| "received (StreamRecv p # tr) = p # received tr"
| "received (_ # tr) = received tr"

text \<open>The error-level log lines.\<close>

fun error_logs :: "event list \<Rightarrow> (string \<times> string) list" where
  "error_logs [] = []"
| "error_logs (Errorf f m # tr) = (f, m) # error_logs tr"
| "error_logs (Errorln m # tr) = ([], m) # error_logs tr"
| "error_logs (_ # tr) = error_logs tr"

subsection \<open>tcpHandler: the upstream loop (lines 125-148)\<close>

text \<open>
  One iteration's answers from the environment: the bytes \<open>conn.Read\<close> copies into the
  buffer (\<open>n\<close> is their number), the error it returns with them, and the result of the
  \<open>stream.Send\<close> the iteration makes when \<open>n > 0\<close>.
\<close>

datatype conn_read = Read "byte list" "error option" "error option"

text \<open>
  \<open>conn.Read(buff)\<close> overwrites the first \<open>n\<close> bytes of the buffer; \<open>frame.Data = buff[:n]\<close>
  is the slice \<open>take n\<close> of it, and \<open>buff[:n]\<close> panics beyond the capacity. The frame
  shares the array of the buffer; \<open>stream.Send\<close> marshals the frame before it returns, so
  the event \<open>StreamSend\<close> carries the bytes the slice holds at the call. As in the source,
  the result of \<open>stream.Send\<close> is assigned to the same \<open>err\<close> that \<open>conn.Read\<close> returned:
  after a successful send the test at line 137 sees \<open>nil\<close>.
\<close>

fun upstream :: "byte list \<Rightarrow> conn_read list \<Rightarrow> loop_end \<times> event list" where
  "upstream buff [] = (Waiting, [])"
| "upstream buff (Read d rerr serr # rs) =
     (let n = length d in
      if length buff < n then (Panic, [ConnRead d])
      else
        let buff' = d @ drop n buff in
        if 0 < n then
          emit [ConnRead d, StreamSend (take n buff') serr]
            (case serr of
               Some e \<Rightarrow> (Break (SendErr e), [Errorf ''stream send err: %s'' (Error_msg e)])
             | None \<Rightarrow> upstream buff' rs)
        else
          emit [ConnRead d]
            (case rerr of
               Some e \<Rightarrow> (Break (ReadErr e), [])
             | None \<Rightarrow> upstream buff' rs))"

subsection \<open>tcpHandler: the downstream goroutine (lines 100-120)\<close>

text \<open>
  One iteration's answers: what \<open>stream.Recv\<close> returns, whether \<open>ctx.Err()\<close> is
  \<open>context.Canceled\<close> at that moment, and the result of \<open>conn.Write\<close> of the payload.
\<close>

datatype stream_recv = Recv "error + byte list" bool "error option"

definition closed_msg :: string where
  "closed_msg = ''use of closed network connection''"

fun downstream :: "stream_recv list \<Rightarrow> loop_end \<times> event list" where
  "downstream [] = (Waiting, [])"
| "downstream (Recv (Inl e) canceled werr # rs) =
     (Break (RecvErr e canceled),
      StreamRecvErr e #
      (if e \<noteq> EOF \<and> \<not> canceled then [Errorf ''stream recv err: %s'' (Error_msg e)] else []))"
| "downstream (Recv (Inr p) canceled werr # rs) =
     emit [StreamRecv p, ConnWrite p werr]
       (case werr of
          Some e \<Rightarrow>
            (Break (WriteErr e),
             if \<not> Contains (Error_msg e) closed_msg
             then [Errorf ''conn write err: %s'' (Error_msg e)] else [])
        | None \<Rightarrow> downstream rs)"

text \<open>The goroutine: the loop, then \<open>conn.Close()\<close>.\<close>

definition go_downstream :: "stream_recv list \<Rightarrow> outcome \<times> event list" where
  "go_downstream rs =
     (case downstream rs of
        (Waiting, evs) \<Rightarrow> (Running, evs)
      | (Break c, evs) \<Rightarrow> (Returned, evs @ [ConnClose])
      | (Panic, evs) \<Rightarrow> (Panicked, evs))"

subsection \<open>tcpHandler (lines 47-149)\<close>

text \<open>
  What the environment answers to one run of \<open>tcpHandler\<close>: the result of
  \<open>lib.GetReqAddr\<close> (the parsed address is kept as its \<open>String()\<close>), of the write of the
  reply, of \<open>gRPCClient\<close>, of \<open>client.Pipeline\<close> and of the first \<open>stream.Send\<close>; the peer of
  the stream's context, if any; \<open>conn.RemoteAddr().String()\<close>; the buffer that
  \<open>leakyBuf.Get()\<close> hands out; and the script of the upstream loop.
\<close>

record tcp_env =
  req_addr :: "error + string"
  reply_err :: "error option"
  client_err :: "error option"
  pipeline_err :: "error option"
  first_send_err :: "error option"
  peer_addr :: "string option"
  remote_addr :: string
  pool_buff :: "byte list"
  reads :: "conn_read list"

definition socks_reply :: "byte list" where
  "socks_reply = [0x05, 0x00, 0x00, 0x01, 0x00, 0x00, 0x00, 0x00, 0x00, 0x00]"

definition names :: "tcp_env \<Rightarrow> string \<Rightarrow> string list" where
  "names env addrStr =
     (case peer_addr env of
        Some info \<Rightarrow> [remote_addr env, info, addrStr]
      | None \<Rightarrow> [remote_addr env, addrStr])"

definition estab_fmt :: "tcp_env \<Rightarrow> string" where
  "estab_fmt env =
     (case peer_addr env of
        Some info \<Rightarrow> ''tcp estab %q<-->%q<-->%q''
      | None \<Rightarrow> ''tcp estab %q<-->%q'')"

definition close_fmt :: "tcp_env \<Rightarrow> string" where
  "close_fmt env =
     (case peer_addr env of
        Some info \<Rightarrow> ''tcp close %q<-->%q<-->%q''
      | None \<Rightarrow> ''tcp close %q<-->%q'')"

text \<open>
  The session once the first frame is out: the two debug lines, the downstream goroutine
  started, the buffer taken from the pool, the upstream loop. When the loop ends the
  deferred calls run, last registered first: \<open>leakyBuf.Put\<close>, the closing debug line,
  \<open>stream.CloseSend\<close>, \<open>cancel\<close>. Go runs them on a panic as well.
\<close>

definition relay :: "tcp_env \<Rightarrow> string \<Rightarrow> outcome \<times> event list" where
  "relay env addrStr =
     emit [Debugf (estab_fmt env) (names env addrStr), Go, Get]
       (case upstream (pool_buff env) (reads env) of
          (Waiting, evs) \<Rightarrow> (Running, evs)
        | (Break c, evs) \<Rightarrow>
            (Returned, evs @ [Put, Debugf (close_fmt env) (names env addrStr), CloseSend, Cancel])
        | (Panic, evs) \<Rightarrow>
            (Panicked, evs @ [Put, Debugf (close_fmt env) (names env addrStr), CloseSend, Cancel]))"

definition tcpHandler :: "tcp_env \<Rightarrow> outcome \<times> event list" where
  "tcpHandler env =
     emit [GetReqAddr]
       (case req_addr env of
          Inl e \<Rightarrow> (Returned, [Errorf ''get req addr err: %s'' (Error_msg e)])
        | Inr addrStr \<Rightarrow>
            emit [ConnWrite socks_reply (reply_err env)]
              (case reply_err env of
                 Some e \<Rightarrow> (Returned, [])
               | None \<Rightarrow>
                   emit [GRPCClient]
                     (case client_err env of
                        Some e \<Rightarrow> (Returned, [Errorln (Error_msg e)])
                      | None \<Rightarrow>
                          emit [Pipeline]
                            (case pipeline_err env of
                               Some e \<Rightarrow>
                                 (Returned,
                                  [Errorf ''establish stream err: %s'' (Error_msg e), Cancel])
                             | None \<Rightarrow>
                                 emit [StreamSend (bytes_of addrStr) (first_send_err env)]
                                   (case first_send_err env of
                                      Some e \<Rightarrow>
                                        (Returned,
                                         [Errorf ''first frame send err: %s'' (Error_msg e),
                                          CloseSend, Cancel])
                                    | None \<Rightarrow> relay env addrStr)))))"

subsection \<open>udpHandler: the reply and the stream (lines 151-196)\<close>

text \<open>
  \<open>int16(serverBindAddr.Port)\<close> keeps the low 16 bits of the port: a 16-bit word whose
  value as an \<open>int16\<close> is read with \<open>sint\<close>. \<open>binary.Write\<close> with \<open>binary.BigEndian\<close>
  puts \<open>uint16(v)\<close> as two bytes, high byte first.
\<close>

definition int16 :: "int \<Rightarrow> 16 word" where
  "int16 p = word_of_int p"

definition BigEndian_int16 :: "16 word \<Rightarrow> byte list" where
  "BigEndian_int16 v = [ucast (drop_bit 8 v), ucast v]"

definition replay :: "int \<Rightarrow> byte list" where
  "replay port =
     [0x05, 0x00, 0x00, 0x01] @ take 6 ([0x0, 0x0, 0x0, 0x0] @ BigEndian_int16 (int16 port))"

text \<open>
  What the environment answers to one run of \<open>udpHandler\<close>: the error of \<open>lib.GetReqAddr\<close>
  (the address is thrown away), the result of \<open>net.ListenPacket\<close> (the port the socket is
  bound to), \<open>time.Now()\<close> at line 168 in seconds, the results of the write of the reply, of
  \<open>gRPCClient\<close> and of \<open>client.PipelineUDP\<close>; then, for the loop, the datagrams the socket
  will deliver, the result of the k-th \<open>stream.Send\<close> on the stream, and the result of
  \<open>stream.CloseSend\<close>.
\<close>

datatype inbound = Datagram nat "byte list" string "error option"

record udp_env =
  u_req_err :: "error option"
  listen :: "error + int"
  now :: nat
  u_reply_err :: "error option"
  u_client_err :: "error option"
  u_pipeline_err :: "error option"
  inbox :: "inbound list"
  send_err :: "nat \<Rightarrow> error option"
  close_err :: "error option"

definition udp_open :: "udp_env \<Rightarrow> outcome \<times> event list" where
  "udp_open env =
     emit [GetReqAddr]
       (case u_req_err env of
          Some e \<Rightarrow> (Returned, [Errorf ''get request err: %s'' (Error_msg e)])
        | None \<Rightarrow>
            emit [ListenPacket]
              (case listen env of
                 Inl e \<Rightarrow> (Returned, [Errorf ''create udp conn err: %s'' (Error_msg e)])
               | Inr port \<Rightarrow>
                   emit [SetReadDeadline (now env + 600), ConnWrite (replay port) (u_reply_err env)]
                     (case u_reply_err env of
                        Some e \<Rightarrow> (Returned, [UDPClose])
                      | None \<Rightarrow>
                          emit [GRPCClient]
                            (case u_client_err env of
                               Some e \<Rightarrow> (Returned, [Errorln (Error_msg e), UDPClose])
                             | None \<Rightarrow>
                                 emit [PipelineUDP]
                                   (case u_pipeline_err env of
                                      Some e \<Rightarrow>
                                        (Returned,
                                         [Errorf ''establish stream err: %s'' (Error_msg e),
                                          UDPClose])
                                    | None \<Rightarrow> (Running, [Go]))))))"

subsection \<open>udpHandler: the loop and its goroutines (lines 198-280)\<close>

text \<open>
  The package \<open>lib\<close> is not among the sources. The loop uses three things of it, taken here
  as parameters: \<open>lib.SplitAddr\<close>, which returns the address block at the head of a byte
  slice, \<open>Addr.String\<close>, its text \<open>host:port\<close>, and the constant \<open>lib.UDPMaxSize\<close>.
\<close>

record lib =
  SplitAddr :: "byte list \<Rightarrow> byte list"
  Addr_String :: "byte list \<Rightarrow> string"
  UDPMaxSize :: nat

text \<open>
  The loop starts one goroutine for each datagram it reads (line 236) and goes on to the
  next \<open>ReadFrom\<close> without waiting for it. The goroutines share with the loop, and with
  each other, the array behind \<open>buff\<close>, the flag \<open>first\<close> and \<open>netInfo\<close>; \<open>n\<close> and \<open>err\<close> are
  declared in the loop body, so each goroutine has the \<open>n\<close> of its own iteration, and the
  \<open>err\<close> it assigns at line 265 is the one its iteration tests at line 274. A goroutine is
  modelled by its program counter: the statements between two counters run as one step.
  The counters are before line 248 (\<open>Split\<close>), before the test of \<open>first\<close> at line 254
  (\<open>TestFirst\<close>), before the send of the destination at line 256 (\<open>SendDst\<close>) and before
  line 263 (\<open>SendData\<close>). The goroutine of lines 206-226, which copies the frames of the
  stream to the datagram socket, sends nothing on the stream and only reads \<open>netInfo\<close>; it
  is started (the event \<open>Go\<close>) and not followed further.
\<close>

datatype pc = Split | TestFirst | SendDst | SendData | Done

datatype task = Task pc nat nat

text \<open>
  The state of the loop: besides the shared variables, the read deadline of the socket, the
  datagrams still to come, the goroutines started so far, and where the loop stands. The
  loop is either about to call \<open>ReadFrom\<close> (line 231) or, when \<open>testing\<close>, between the end of
  line 272 and the test of \<open>err\<close> at line 274; \<open>loop_err\<close> is the \<open>err\<close> of the iteration and
  \<open>started\<close> the goroutine the iteration has started, if any.
\<close>

record udp_state =
  buff :: "byte list"
  first :: bool
  DSTAddr :: string
  BNDAddr :: "string option"
  deadline :: nat
  socket :: "inbound list"
  tasks :: "task list"
  loop :: outcome
  testing :: bool
  loop_err :: "error option"
  started :: "nat option"
  trace :: "event list"

definition init :: "lib \<Rightarrow> udp_env \<Rightarrow> event list \<Rightarrow> udp_state" where
  "init L env evs =
     \<lparr>buff = replicate (UDPMaxSize L) 0, first = False, DSTAddr = [], BNDAddr = None,
      deadline = now env + 600, socket = inbox env, tasks = [], loop = Running,
      testing = False, loop_err = None, started = None, trace = evs\<rparr>"

text \<open>
  Leaving the loop (lines 279-280): the debug line, then the deferred calls, the closure
  around \<open>stream.CloseSend\<close> before \<open>udpLn.Close\<close>.
\<close>

definition leave :: "udp_env \<Rightarrow> udp_state \<Rightarrow> udp_state" where
  "leave env s =
     s\<lparr>loop := Returned,
       trace := trace s @
         [Debugf ''closed udp connection to %s'' [DSTAddr s], CloseSend] @
         (case close_err env of
            Some e \<Rightarrow> [Errorf ''close stream err: %s'' (Error_msg e)]
          | None \<Rightarrow> []) @
         [UDPClose]\<rparr>"

definition timeout :: error where
  "timeout = Err ''i/o timeout''"

text \<open>
  \<open>ReadFrom\<close> and the rest of the iteration up to line 272. Time is counted in seconds. The
  script lists every datagram that will come, each with the time at which it comes; when
  the script is used up nothing comes any more. A read deadline is what Go's \<open>net\<close> package
  says it is: an absolute time after which reads fail instead of blocking. The only call of
  \<open>SetReadDeadline\<close> is the one at line 168, before the loop, so the field \<open>deadline\<close> is
  written by \<open>init\<close> and by nothing else. A datagram that comes before the deadline is
  read; when none does, because none is left or because the next one comes at the deadline
  or later, the read fails at the deadline with a timeout and no bytes. A datagram longer
  than the buffer is cut.
\<close>

definition timed_out :: "udp_state \<Rightarrow> udp_state" where
  "timed_out s =
     s\<lparr>trace := trace s @ [ReadFrom [] (Some timeout)], loop_err := Some timeout,
       started := None, testing := True\<rparr>"

definition read_step :: "udp_state \<Rightarrow> udp_state" where
  "read_step s =
     (case socket s of
        [] \<Rightarrow> timed_out s
      | Datagram t d src rerr # rest \<Rightarrow>
          if deadline s \<le> t then timed_out s
          else
            let n = min (length d) (length (buff s));
                s1 = s\<lparr>socket := rest, buff := take n d @ drop n (buff s),
                       trace := trace s @ [ReadFrom (take n d) rerr],
                       loop_err := rerr, testing := True\<rparr>
            in if 0 < n
               then s1\<lparr>BNDAddr := Some src, tasks := tasks s1 @ [Task Split n 0],
                       started := Some (length (tasks s1))\<rparr>
               else s1\<lparr>started := None\<rparr>)"

text \<open>The test of \<open>err\<close> at line 274: leave the loop, or go round again.\<close>

definition test_step :: "udp_env \<Rightarrow> udp_state \<Rightarrow> udp_state" where
  "test_step env s =
     (case loop_err s of
        Some e \<Rightarrow> leave env (s\<lparr>testing := False, started := None\<rparr>)
      | None \<Rightarrow> s\<lparr>testing := False, started := None\<rparr>)"

definition main_step :: "udp_env \<Rightarrow> udp_state \<Rightarrow> udp_state" where
  "main_step env s =
     (if loop s = Running then (if testing s then test_step env s else read_step s) else s)"

text \<open>
  One step of the i-th goroutine (lines 236-270). \<open>buff[3:n]\<close> and \<open>buff[3+len(dst):n]\<close>
  panic when the bounds are out of order, and a panic in a goroutine ends the process.
  The \<open>err\<close> of line 256 is a new variable of the \<open>if\<close> block; the assignment of line 265
  is to the \<open>err\<close> of the iteration that started the goroutine, and it reaches the test of
  line 274 when that iteration has not made the test yet.
\<close>

definition send :: "udp_env \<Rightarrow> byte list \<Rightarrow> string \<Rightarrow> udp_state \<Rightarrow> error option \<times> udp_state" where
  "send env payload fmt s =
     (let r = send_err env (length (sent (trace s)))
      in (r, s\<lparr>trace := trace s @ StreamSend payload r #
                 (case r of Some e \<Rightarrow> [Errorf fmt (Error_msg e)] | None \<Rightarrow> [])\<rparr>))"

definition task_step :: "lib \<Rightarrow> udp_env \<Rightarrow> nat \<Rightarrow> udp_state \<Rightarrow> udp_state" where
  "task_step L env i s =
     (if loop s = Panicked then s
      else if length (tasks s) \<le> i then s
      else
        (case tasks s ! i of
           Task Split n dlen \<Rightarrow>
             if n < 3 then s\<lparr>loop := Panicked\<rparr>
             else if length (buff s) < n then s\<lparr>loop := Panicked\<rparr>
             else
               (case BNDAddr s of
                  None \<Rightarrow> s\<lparr>loop := Panicked\<rparr>
                | Some bnd \<Rightarrow>
                    let dst = SplitAddr L (take (n - 3) (drop 3 (buff s)));
                        a = Addr_String L dst
                    in s\<lparr>DSTAddr := a,
                         tasks := (tasks s)[i := Task TestFirst n (length dst)],
                         trace := trace s @ [Debugf ''udp %q --> %q'' [bnd, a]]\<rparr>)
         | Task TestFirst n dlen \<Rightarrow>
             if first s then s\<lparr>tasks := (tasks s)[i := Task SendData n dlen]\<rparr>
             else s\<lparr>first := True, tasks := (tasks s)[i := Task SendDst n dlen]\<rparr>
         | Task SendDst n dlen \<Rightarrow>
             (case send env (bytes_of (DSTAddr s)) ''first frame send err: %s'' s of
                (Some e, s') \<Rightarrow> s'\<lparr>tasks := (tasks s')[i := Task Done n dlen]\<rparr>
              | (None, s') \<Rightarrow> s'\<lparr>tasks := (tasks s')[i := Task SendData n dlen]\<rparr>)
         | Task SendData n dlen \<Rightarrow>
             if n < 3 + dlen then s\<lparr>loop := Panicked\<rparr>
             else if length (buff s) < n then s\<lparr>loop := Panicked\<rparr>
             else
               (case send env (take (n - (3 + dlen)) (drop (3 + dlen) (buff s)))
                       ''stream send err: %s'' s of
                  (r, s') \<Rightarrow>
                    if started s = Some i
                    then s'\<lparr>tasks := (tasks s')[i := Task Done n dlen], loop_err := r\<rparr>
                    else s'\<lparr>tasks := (tasks s')[i := Task Done n dlen]\<rparr>)
         | Task Done n dlen \<Rightarrow> s))"

text \<open>
  A schedule says who moves next: the loop, which takes two steps for each iteration, the
  read and the test, or the i-th goroutine it has started.
\<close>

datatype choice = Loop | Goroutine nat

fun step :: "lib \<Rightarrow> udp_env \<Rightarrow> udp_state \<Rightarrow> choice \<Rightarrow> udp_state" where
  "step L env s Loop = main_step env s"
| "step L env s (Goroutine i) = task_step L env i s"

definition udpHandler :: "lib \<Rightarrow> udp_env \<Rightarrow> choice list \<Rightarrow> udp_state" where
  "udpHandler L env sched =
     (case udp_open env of
        (Running, evs) \<Rightarrow> foldl (step L env) (init L env evs) sched
      | (r, evs) \<Rightarrow> (init L env evs)\<lparr>loop := r\<rparr>)"

text \<open>
  The schedule in which the loop waits for each goroutine before it reads again: after
  each iteration of the loop, read and test, four steps of the goroutine it may have
  started.
\<close>

fun in_turn :: "nat \<Rightarrow> nat \<Rightarrow> choice list" where
  "in_turn i 0 = []"
| "in_turn i (Suc k) =
     [Loop, Loop, Goroutine i, Goroutine i, Goroutine i, Goroutine i] @ in_turn (Suc i) k"

text \<open>
  Modelled from the spec: \<open>lib.SplitAddr\<close> and \<open>Addr.String\<close> are not among the sources.
  This is the SOCKS5 address block of the datagram envelope (ATYP, DST.ADDR, DST.PORT) for
  the domain-name type alone: ATYP 3, one byte of length, the name, the port in two bytes,
  and \<open>host:port\<close> as its text. For any other block \<open>SplitAddr\<close> is empty here.
\<close>

fun digit_chars :: "nat \<Rightarrow> string" where
  "digit_chars n =
     (if n < 10 then [char_of (48 + n)]
      else digit_chars (n div 10) @ [char_of (48 + n mod 10)])"

definition domain_SplitAddr :: "byte list \<Rightarrow> byte list" where
  "domain_SplitAddr b =
     (case b of
        atyp # l # r \<Rightarrow>
          if atyp = 3 then
            (if length b < 1 + 1 + unat l + 2 then [] else take (1 + 1 + unat l + 2) b)
          else []
      | _ \<Rightarrow> [])"

definition domain_String :: "byte list \<Rightarrow> string" where
  "domain_String a =
     (case a of
        atyp # l # r \<Rightarrow>
          if length r < unat l + 2 then []
          else
            map (\<lambda>b. char_of (unat b)) (take (unat l) r) @ '':'' @
            digit_chars (unat (r ! unat l) * 256 + unat (r ! (unat l + 1)))
      | _ \<Rightarrow> [])"

definition domain_lib :: lib where
  "domain_lib = \<lparr>SplitAddr = domain_SplitAddr, Addr_String = domain_String, UDPMaxSize = 65536\<rparr>"

subsection \<open>Notions the properties are stated with\<close>

text \<open>\<open>leakyBufSize\<close> (line 20), the size of the buffers of the pool.\<close>

definition leakyBufSize :: nat where
  "leakyBufSize = 4108"

text \<open>The bytes one \<open>conn.Read\<close> of the script delivers.\<close>

fun chunk :: "conn_read \<Rightarrow> byte list" where
  "chunk (Read d rerr serr) = d"

text \<open>A run of \<open>tcpHandler\<close> that gets as far as line 90: a session.\<close>

definition established :: "tcp_env \<Rightarrow> bool" where
  "established env =
     (case req_addr env of
        Inl e \<Rightarrow> False
      | Inr a \<Rightarrow>
          reply_err env = None \<and> client_err env = None \<and> pipeline_err env = None \<and>
          first_send_err env = None)"

text \<open>A session with a peer, three reads and no failure on the way.\<close>

definition env1 :: tcp_env where
  "env1 =
     \<lparr>req_addr = Inr ''example.com:80'', reply_err = None, client_err = None,
      pipeline_err = None, first_send_err = None, peer_addr = Some ''192.0.2.7:8443'',
      remote_addr = ''10.0.0.1:5000'', pool_buff = replicate leakyBufSize 0,
      reads = [Read [1, 2, 3] None None, Read [4] (Some EOF) None, Read [] (Some EOF) None]\<rparr>"

text \<open>
  An iteration of a copy loop after which the loop goes round again: downstream a frame
  whose write succeeds; upstream a chunk that fits the buffer and is sent with success, or
  a read of no bytes with no error.
\<close>

fun passes_down :: "stream_recv \<Rightarrow> bool" where
  "passes_down (Recv (Inr p) canceled None) = True"
| "passes_down r = False"

fun passes_up :: "nat \<Rightarrow> conn_read \<Rightarrow> bool" where
  "passes_up cap (Read d rerr serr) =
     (if cap < length d then False else if d = [] then rerr = None else serr = None)"

text \<open>
  The payloads of the frames a script of the stream delivers before end-of-stream or an
  error, in order; and whether every \<open>conn.Write\<close> of such a frame succeeds.
\<close>

fun frames_before_end :: "stream_recv list \<Rightarrow> byte list list" where
  "frames_before_end [] = []"
| "frames_before_end (Recv (Inl e) canceled werr # rs) = []"
| "frames_before_end (Recv (Inr p) canceled werr # rs) = p # frames_before_end rs"

fun writes_succeed :: "stream_recv list \<Rightarrow> bool" where
  "writes_succeed [] = True"
| "writes_succeed (Recv (Inl e) canceled werr # rs) = True"
| "writes_succeed (Recv (Inr p) canceled werr # rs) =
     (if werr = None then writes_succeed rs else False)"

text \<open>The steps of the remote leg: getting the gRPC client, opening the stream, sending.\<close>

fun remote_leg :: "event \<Rightarrow> bool" where
  "remote_leg GRPCClient = True"
| "remote_leg Pipeline = True"
| "remote_leg (StreamSend p r) = True"
| "remote_leg ev = False"

text \<open>Two frames from the stream, then a stream error that is neither EOF nor a cancel.\<close>

definition recvs1 :: "stream_recv list" where
  "recvs1 =
     [Recv (Inr [7, 8]) False None, Recv (Inr [9]) False None,
      Recv (Inl (Err ''rpc error: code = Unavailable'')) False None]"

text \<open>Two frames from the stream, then one whose write fails, then one more.\<close>

definition recvs2 :: "stream_recv list" where
  "recvs2 =
     [Recv (Inr [7, 8]) False None, Recv (Inr [9]) False (Some (Err ''broken pipe'')),
      Recv (Inr [10]) False None]"



text \<open>
  Two datagrams in the SOCKS5 envelope, both for the domain \<open>a\<close>, port 53: one with the
  data byte 88, one with the data byte 89.
\<close>

definition dgX :: "byte list" where
  "dgX = [0, 0, 0, 3, 1, 97, 0, 53, 88]"

definition dgY :: "byte list" where
  "dgY = [0, 0, 0, 3, 1, 97, 0, 53, 89]"

text \<open>An association bound to port 40000 that gets the two datagrams 400 seconds apart.\<close>

definition uenv7 :: udp_env where
  "uenv7 =
     \<lparr>u_req_err = None, listen = Inr 40000, now = 0, u_reply_err = None,
      u_client_err = None, u_pipeline_err = None,
      inbox = [Datagram 300 dgX ''10.0.0.1:5000'' None, Datagram 700 dgY ''10.0.0.1:5000'' None],
      send_err = (\<lambda>k. None), close_err = None\<rparr>"


text \<open>The same association when the two datagrams come together.\<close>

definition uenv4 :: udp_env where
  "uenv4 =
     \<lparr>u_req_err = None, listen = Inr 40000, now = 0, u_reply_err = None,
      u_client_err = None, u_pipeline_err = None,
      inbox = [Datagram 1 dgX ''10.0.0.1:5000'' None, Datagram 1 dgY ''10.0.0.1:5000'' None],
      send_err = (\<lambda>k. None), close_err = None\<rparr>"

section \<open>Properties of the TCP relay\<close>

lemma fst_emit [simp]: "fst (emit evs p) = fst p"
  by (simp add: emit_def)

lemma snd_emit [simp]: "snd (emit evs p) = evs @ snd p"
  by (simp add: emit_def)

lemma sent_append [simp]: "sent (a @ b) = sent a @ sent b"
  by (induction a rule: sent.induct) simp_all

lemma read_chunks_append [simp]: "read_chunks (a @ b) = read_chunks a @ read_chunks b"
  by (induction a rule: read_chunks.induct) simp_all

lemma written_append [simp]: "written (a @ b) = written a @ written b"
  by (induction a rule: written.induct) simp_all

lemma received_append [simp]: "received (a @ b) = received a @ received b"
  by (induction a rule: received.induct) simp_all

lemma error_logs_append [simp]: "error_logs (a @ b) = error_logs a @ error_logs b"
  by (induction a rule: error_logs.induct) simp_all

lemma send_results_append [simp]: "send_results (a @ b) = send_results a @ send_results b"
  by (induction a rule: send_results.induct) simp_all

lemma write_results_append [simp]: "write_results (a @ b) = write_results a @ write_results b"
  by (induction a rule: write_results.induct) simp_all

subsection \<open>The upstream direction\<close>

lemma upstream_sent_read:
  "\<forall>r\<in>set rs. length (chunk r) \<le> length bf \<Longrightarrow>
   concat (sent (snd (upstream bf rs))) = concat (read_chunks (snd (upstream bf rs)))"
proof (induction rs arbitrary: bf)
  case Nil
  then show ?case by simp
next
  case (Cons r rs)
  obtain d rerr serr where r: "r = Read d rerr serr" by (cases r)
  from Cons.prems r have fit: "length d \<le> length bf" by simp
  have IH: "concat (sent (snd (upstream b rs))) = concat (read_chunks (snd (upstream b rs)))"
    if "length b = length bf" for b
    using Cons.IH [of b] Cons.prems that by simp
  show ?case using fit IH
    by (simp add: r Let_def split: option.splits)
qed

lemma upstream_send_results:
  "list_all (\<lambda>x. x = None) (butlast (send_results (snd (upstream bf rs))))"
proof (induction rs arbitrary: bf)
  case Nil
  then show ?case by simp
next
  case (Cons r rs)
  obtain d rerr serr where r: "r = Read d rerr serr" by (cases r)
  show ?case using Cons.IH
    by (auto simp add: r Let_def split: option.splits if_splits)
qed

lemma relay_upstream:
  "sent (snd (relay env a)) = sent (snd (upstream (pool_buff env) (reads env)))"
  "read_chunks (snd (relay env a)) = read_chunks (snd (upstream (pool_buff env) (reads env)))"
  "send_results (snd (relay env a)) = send_results (snd (upstream (pool_buff env) (reads env)))"
  by (cases "upstream (pool_buff env) (reads env)"; cases "fst (upstream (pool_buff env) (reads env))";
      simp add: relay_def)+

lemma tcpHandler_send_results:
  "list_all (\<lambda>x. x = None) (butlast (send_results (snd (tcpHandler env))))"
  using upstream_send_results [of "pool_buff env" "reads env"]
  by (simp add: tcpHandler_def relay_upstream split: sum.splits option.splits)

text \<open>
  C1. For every TCP session the upstream direction preserves the client's byte stream:
  whatever chunks \<open>conn.Read\<close> delivers, each no longer than the buffer, the payloads of the
  frames handed to \<open>stream.Send\<close> after the first, the destination frame, concatenated in
  order, are the bytes read from the client socket, concatenated in order: nothing is lost,
  reordered or sent twice. Every \<open>stream.Send\<close> but the last one made has returned \<open>nil\<close>.
\<close>

theorem tcp_upstream_preserves_bytes:
  assumes "\<forall>r\<in>set (reads env). length (chunk r) \<le> length (pool_buff env)"
  shows "concat (drop 1 (sent (snd (tcpHandler env)))) =
           concat (read_chunks (snd (tcpHandler env))) \<and>
         list_all (\<lambda>x. x = None) (butlast (send_results (snd (tcpHandler env))))"
proof
  show "concat (drop 1 (sent (snd (tcpHandler env)))) =
        concat (read_chunks (snd (tcpHandler env)))"
    using upstream_sent_read [OF assms]
    by (simp add: tcpHandler_def relay_upstream split: sum.splits option.splits)
  show "list_all (\<lambda>x. x = None) (butlast (send_results (snd (tcpHandler env))))"
    by (rule tcpHandler_send_results)
qed

theorem tcp_upstream_preserves_bytes_witness:
  "list_all (\<lambda>r. length (chunk r) \<le> length (pool_buff env1)) (reads env1) \<and>
   concat (drop 1 (sent (snd (tcpHandler env1)))) = [1, 2, 3, 4] \<and>
   concat (read_chunks (snd (tcpHandler env1))) = [1, 2, 3, 4]"
proof -
  have h: "\<forall>r\<in>set (reads env1). length (chunk r) \<le> length (pool_buff env1)"
    by (simp add: env1_def leakyBufSize_def)
  have r: "concat (read_chunks (snd (tcpHandler env1))) = [1, 2, 3, 4]"
    by (simp add: env1_def leakyBufSize_def tcpHandler_def relay_def emit_def Let_def)
  show ?thesis using h r tcp_upstream_preserves_bytes [OF h] by (simp add: list_all_iff)
qed

lemma upstream_append:
  "fst (upstream bf rs1) = Waiting \<Longrightarrow>
   \<exists>b. length b = length bf \<and>
     upstream bf (rs1 @ rs2) = emit (snd (upstream bf rs1)) (upstream b rs2)"
proof (induction rs1 arbitrary: bf)
  case Nil
  then show ?case by (auto simp: emit_def)
next
  case (Cons r rs)
  obtain d rerr serr where r: "r = Read d rerr serr" by (cases r)
  from Cons.prems r have fit: "length d \<le> length bf"
    by (auto simp: Let_def split: if_splits)
  let ?b = "d @ drop (length d) bf"
  have len: "length ?b = length bf" using fit by simp
  from Cons.prems r fit have w: "fst (upstream ?b rs) = Waiting"
    by (auto simp: Let_def split: if_splits option.splits)
  from Cons.IH [OF w] len obtain b where
    b: "length b = length bf"
       "upstream ?b (rs @ rs2) = emit (snd (upstream ?b rs)) (upstream b rs2)"
    by auto
  show ?case
    using Cons.prems fit b
    by (auto simp: r Let_def emit_def split: if_splits option.splits intro!: exI [of _ b])
qed

text \<open>
  C10. In the upstream loop, when a read of the client socket returns \<open>n > 0\<close> bytes
  together with an error, those bytes are still handed to \<open>stream.Send\<close> as a frame, right
  after the read and before the loop can end: the last partial chunk is not dropped. Here
  the loop has consumed the script \<open>rs1\<close> and waits in \<open>conn.Read\<close>, which then returns
  the bytes \<open>d\<close> with the error \<open>e\<close>.
\<close>

theorem tcp_read_with_error_still_sent:
  assumes "fst (upstream bf rs1) = Waiting" and "d \<noteq> []" and "length d \<le> length bf"
  shows "\<exists>rest. snd (upstream bf (rs1 @ Read d (Some e) serr # rs2))
           = snd (upstream bf rs1) @ ConnRead d # StreamSend d serr # rest"
proof -
  from upstream_append [OF assms(1), of "Read d (Some e) serr # rs2"] obtain b where
    b: "length b = length bf"
       "upstream bf (rs1 @ Read d (Some e) serr # rs2)
          = emit (snd (upstream bf rs1)) (upstream b (Read d (Some e) serr # rs2))"
    by auto
  show ?thesis using assms(2,3) b
    by (simp add: Let_def)
qed

theorem tcp_read_with_error_still_sent_witness:
  "fst (upstream (replicate leakyBufSize 0) [Read [1, 2, 3] None None]) = Waiting \<and>
   [4 :: byte] \<noteq> [] \<and> length [4 :: byte] \<le> length (replicate leakyBufSize (0 :: byte)) \<and>
   (\<exists>rest. snd (upstream (replicate leakyBufSize 0)
                ([Read [1, 2, 3] None None] @ Read [4] (Some EOF) None # [Read [] (Some EOF) None]))
           = snd (upstream (replicate leakyBufSize 0) [Read [1, 2, 3] None None]) @
             ConnRead [4] # StreamSend [4] None # rest)"
proof -
  have w: "fst (upstream (replicate leakyBufSize 0) [Read [1, 2, 3] None None]) = Waiting"
    by (simp add: leakyBufSize_def Let_def)
  have l: "length [4 :: byte] \<le> length (replicate leakyBufSize (0 :: byte))"
    by (simp add: leakyBufSize_def)
  show ?thesis
    using w l tcp_read_with_error_still_sent [OF w _ l, of EOF None "[Read [] (Some EOF) None]"]
    by simp
qed

subsection \<open>The downstream direction\<close>

lemma downstream_written: "written (snd (downstream rs)) = received (snd (downstream rs))"
  by (induction rs rule: downstream.induct) (simp_all split: option.splits)

lemma downstream_write_results:
  "list_all (\<lambda>x. x = None) (butlast (write_results (snd (downstream rs))))"
  by (induction rs rule: downstream.induct) (auto split: option.splits)

lemma downstream_frames: "prefix (written (snd (downstream rs))) (frames_before_end rs)"
  by (induction rs rule: downstream.induct) (simp_all split: option.splits)

lemma downstream_all_frames:
  "writes_succeed rs \<Longrightarrow> written (snd (downstream rs)) = frames_before_end rs"
  by (induction rs rule: downstream.induct) (simp_all split: option.splits if_splits)

lemma go_downstream_loop:
  "written (snd (go_downstream rs)) = written (snd (downstream rs))"
  "received (snd (go_downstream rs)) = received (snd (downstream rs))"
  "write_results (snd (go_downstream rs)) = write_results (snd (downstream rs))"
  by (cases "downstream rs"; cases "fst (downstream rs)"; simp add: go_downstream_def)+

text \<open>
  C2. For every TCP session the downstream direction preserves the remote byte stream. Take
  any script of the stream, and the frames it delivers before end-of-stream or an error.
  What the goroutine hands to \<open>conn.Write\<close> is always a prefix of the payloads of those
  frames, one write for each frame it has received and in the same order; every
  \<open>conn.Write\<close> but the last one made has returned \<open>nil\<close>. When no write fails, the writes
  are all those payloads, so the bytes written to the client socket are the payloads
  concatenated in order.
\<close>

theorem tcp_downstream_preserves_bytes:
  "prefix (written (snd (go_downstream rs))) (frames_before_end rs) \<and>
   received (snd (go_downstream rs)) = written (snd (go_downstream rs)) \<and>
   list_all (\<lambda>x. x = None) (butlast (write_results (snd (go_downstream rs)))) \<and>
   (writes_succeed rs \<longrightarrow>
      written (snd (go_downstream rs)) = frames_before_end rs \<and>
      concat (written (snd (go_downstream rs))) = concat (frames_before_end rs))"
  by (simp add: go_downstream_loop downstream_written [symmetric] downstream_write_results
      downstream_frames downstream_all_frames)

theorem tcp_downstream_preserves_bytes_witness:
  "writes_succeed recvs1 \<and> frames_before_end recvs1 = [[7, 8], [9]] \<and>
   written (snd (go_downstream recvs1)) = [[7, 8], [9]] \<and>
   concat (written (snd (go_downstream recvs1))) = [7, 8, 9] \<and>
   frames_before_end recvs2 = [[7, 8], [9], [10]] \<and>
   prefix (written (snd (go_downstream recvs2))) [[7, 8], [9], [10]] \<and>
   write_results (snd (go_downstream recvs2)) = [None, Some (Err ''broken pipe'')]"
proof -
  have h: "writes_succeed recvs1" by (simp add: recvs1_def)
  have f1: "frames_before_end recvs1 = [[7, 8], [9]]" by (simp add: recvs1_def)
  have f2: "frames_before_end recvs2 = [[7, 8], [9], [10]]" by (simp add: recvs2_def)
  have w2: "write_results (snd (go_downstream recvs2)) = [None, Some (Err ''broken pipe'')]"
    by (simp add: recvs2_def go_downstream_def emit_def closed_msg_def)
  show ?thesis
    using h f1 f2 w2 tcp_downstream_preserves_bytes [of recvs1]
      tcp_downstream_preserves_bytes [of recvs2]
    by simp
qed

subsection \<open>The error log\<close>

lemma Contains_iff: "Contains s sub \<longleftrightarrow> (\<exists>a b. s = a @ sub @ b)"
proof (induction s)
  case Nil
  then show ?case by simp
next
  case (Cons c cs)
  show ?case
  proof
    assume "Contains (c # cs) sub"
    then consider "prefix sub (c # cs)" | "Contains cs sub"
      by (auto split: if_splits)
    then show "\<exists>a b. c # cs = a @ sub @ b"
    proof cases
      case 1
      then obtain b where "c # cs = sub @ b" by (auto simp: prefix_def)
      then have "c # cs = [] @ sub @ b" by simp
      then show ?thesis by blast
    next
      case 2
      with Cons.IH obtain a b where "cs = a @ sub @ b" by blast
      then have "c # cs = (c # a) @ sub @ b" by simp
      then show ?thesis by blast
    qed
  next
    assume "\<exists>a b. c # cs = a @ sub @ b"
    then obtain a b where ab: "c # cs = a @ sub @ b" by blast
    show "Contains (c # cs) sub"
    proof (cases a)
      case Nil
      with ab have "prefix sub (c # cs)" by (simp add: prefix_def)
      then show ?thesis by simp
    next
      case (Cons x a')
      with ab have "cs = a' @ sub @ b" by simp
      with Cons.IH have "Contains cs sub" by blast
      then show ?thesis by simp
    qed
  qed
qed

lemma downstream_passes:
  "list_all passes_down rs \<Longrightarrow>
   downstream (rs @ rs') = emit (snd (downstream rs)) (downstream rs') \<and>
   error_logs (snd (downstream rs)) = []"
proof (induction rs)
  case Nil
  then show ?case by (simp add: emit_def)
next
  case (Cons r rs)
  from Cons.prems obtain p canceled where r: "r = Recv (Inr p) canceled None"
    by (cases r rule: passes_down.cases) auto
  show ?case using Cons by (simp add: r emit_def)
qed

lemma upstream_passes:
  "list_all (passes_up (length bf)) us \<Longrightarrow>
   fst (upstream bf us) = Waiting \<and> error_logs (snd (upstream bf us)) = []"
proof (induction us arbitrary: bf)
  case Nil
  then show ?case by simp
next
  case (Cons r us)
  obtain d rerr serr where r: "r = Read d rerr serr" by (cases r)
  from Cons.prems r have fit: "length d \<le> length bf" by (auto split: if_splits)
  have IH: "fst (upstream b us) = Waiting \<and> error_logs (snd (upstream b us)) = []"
    if "length b = length bf" for b
    using Cons.IH [of b] Cons.prems that by simp
  show ?case using Cons.prems fit IH
    by (auto simp: r Let_def split: if_splits)
qed

text \<open>
  C6. In a TCP session, take a copy loop that has gone round any number of times without
  an error and then meets one; the error ends the loop, and the error log of the whole
  run of the loop is as follows. Downstream: a stream receive that ends with \<open>io.EOF\<close>, or
  with any error while the context of the session is canceled, leaves no line, and any
  other stream receive error leaves exactly one; a client write error whose message
  contains "use of closed network connection" leaves no line, and any other client write
  error leaves exactly one. Upstream: a stream send error leaves exactly one line; a client
  read error, among them the one of the closed connection, leaves none.
\<close>

theorem tcp_error_logging:
  assumes "list_all passes_down rs" and "list_all (passes_up (length bf)) us"
    and "d \<noteq> []" and "length d \<le> length bf"
  shows "fst (downstream (rs @ Recv (Inl e1) canceled w # rs')) = Break (RecvErr e1 canceled) \<and>
         error_logs (snd (downstream (rs @ Recv (Inl e1) canceled w # rs'))) =
           (if e1 = EOF then [] else if canceled then []
            else [(''stream recv err: %s'', Error_msg e1)]) \<and>
         fst (downstream (rs @ Recv (Inr p) canceled (Some e2) # rs')) = Break (WriteErr e2) \<and>
         error_logs (snd (downstream (rs @ Recv (Inr p) canceled (Some e2) # rs'))) =
           (if Contains (Error_msg e2) ''use of closed network connection'' then []
            else [(''conn write err: %s'', Error_msg e2)]) \<and>
         error_logs (snd (downstream (rs @
            Recv (Inr p) canceled (Some (Err (m1 @ ''use of closed network connection'' @ m2)))
            # rs'))) = [] \<and>
         fst (upstream bf (us @ Read d rerr (Some e3) # us')) = Break (SendErr e3) \<and>
         error_logs (snd (upstream bf (us @ Read d rerr (Some e3) # us'))) =
           [(''stream send err: %s'', Error_msg e3)] \<and>
         fst (upstream bf (us @ Read [] (Some e4) serr # us')) = Break (ReadErr e4) \<and>
         error_logs (snd (upstream bf (us @ Read [] (Some e4) serr # us'))) = []"
proof -
  have down: "downstream (rs @ x) = emit (snd (downstream rs)) (downstream x)"
    and dlog: "error_logs (snd (downstream rs)) = []" for x
    using downstream_passes [OF assms(1)] by simp_all
  from upstream_passes [OF assms(2)] have wait: "fst (upstream bf us) = Waiting"
    and ulog: "error_logs (snd (upstream bf us)) = []" by simp_all
  have closed: "Contains (m1 @ ''use of closed network connection'' @ m2)
      ''use of closed network connection''"
    unfolding Contains_iff by blast
  from upstream_append [OF wait, of "Read d rerr (Some e3) # us'"] obtain b3 where
    b3: "length b3 = length bf"
        "upstream bf (us @ Read d rerr (Some e3) # us') =
           emit (snd (upstream bf us)) (upstream b3 (Read d rerr (Some e3) # us'))"
    by auto
  from upstream_append [OF wait, of "Read [] (Some e4) serr # us'"] obtain b4 where
    b4: "upstream bf (us @ Read [] (Some e4) serr # us') =
           emit (snd (upstream bf us)) (upstream b4 (Read [] (Some e4) serr # us'))"
    by auto
  have r1: "fst (downstream (rs @ Recv (Inl e1) canceled w # rs')) = Break (RecvErr e1 canceled)"
    by (simp add: down)
  have r2: "error_logs (snd (downstream (rs @ Recv (Inl e1) canceled w # rs'))) =
           (if e1 = EOF then [] else if canceled then []
            else [(''stream recv err: %s'', Error_msg e1)])"
    by (simp add: down dlog)
  have r3: "fst (downstream (rs @ Recv (Inr p) canceled (Some e2) # rs')) = Break (WriteErr e2)"
    by (simp add: down)
  have r4: "error_logs (snd (downstream (rs @ Recv (Inr p) canceled (Some e2) # rs'))) =
           (if Contains (Error_msg e2) ''use of closed network connection'' then []
            else [(''conn write err: %s'', Error_msg e2)])"
    by (simp add: down dlog closed_msg_def)
  have r5: "error_logs (snd (downstream (rs @
            Recv (Inr p) canceled (Some (Err (m1 @ ''use of closed network connection'' @ m2)))
            # rs'))) = []"
    using closed by (simp add: down dlog closed_msg_def del: Contains.simps)
  have r6: "fst (upstream bf (us @ Read d rerr (Some e3) # us')) = Break (SendErr e3)"
    using assms(3,4) b3 by (simp add: Let_def)
  have r7: "error_logs (snd (upstream bf (us @ Read d rerr (Some e3) # us'))) =
           [(''stream send err: %s'', Error_msg e3)]"
    using assms(3,4) b3 by (simp add: Let_def ulog)
  have r8: "fst (upstream bf (us @ Read [] (Some e4) serr # us')) = Break (ReadErr e4)"
    using b4 by (simp add: Let_def)
  have r9: "error_logs (snd (upstream bf (us @ Read [] (Some e4) serr # us'))) = []"
    using b4 by (simp add: Let_def ulog)
  show ?thesis using r1 r2 r3 r4 r5 r6 r7 r8 r9 by blast
qed

theorem tcp_error_logging_witness:
  "error_logs (snd (downstream ([Recv (Inr [7, 8]) False None] @
      Recv (Inr [9]) False
        (Some (Err ''write tcp 10.0.0.1:1080: use of closed network connection'')) # []))) = [] \<and>
   error_logs (snd (downstream ([Recv (Inr [7, 8]) False None] @
      Recv (Inr [9]) False (Some (Err ''broken pipe'')) # []))) =
     [(''conn write err: %s'', ''broken pipe'')] \<and>
   error_logs (snd (downstream ([Recv (Inr [7, 8]) False None] @
      Recv (Inl EOF) False None # []))) = [] \<and>
   error_logs (snd (downstream ([Recv (Inr [7, 8]) False None] @
      Recv (Inl (Err ''rpc error: code = Canceled'')) True None # []))) = [] \<and>
   error_logs (snd (downstream ([Recv (Inr [7, 8]) False None] @
      Recv (Inl (Err ''rpc error: code = Unavailable'')) False None # []))) =
     [(''stream recv err: %s'', ''rpc error: code = Unavailable'')] \<and>
   error_logs (snd (upstream (replicate leakyBufSize 0) ([Read [1, 2, 3] None None] @
      Read [4] None (Some (Err ''rpc error: code = Unavailable'')) # []))) =
     [(''stream send err: %s'', ''rpc error: code = Unavailable'')] \<and>
   fst (upstream (replicate leakyBufSize 0) ([Read [1, 2, 3] None None] @
      Read [] (Some (Err ''read tcp 10.0.0.1:1080: use of closed network connection'')) None
      # [])) =
     Break (ReadErr (Err ''read tcp 10.0.0.1:1080: use of closed network connection'')) \<and>
   error_logs (snd (upstream (replicate leakyBufSize 0) ([Read [1, 2, 3] None None] @
      Read [] (Some (Err ''read tcp 10.0.0.1:1080: use of closed network connection'')) None
      # []))) = []"
proof -
  have h1: "list_all passes_down [Recv (Inr [7, 8]) False None]" by simp
  have h2: "list_all (passes_up (length (replicate leakyBufSize (0 :: byte))))
      [Read [1, 2, 3] None None]"
    by (simp add: leakyBufSize_def)
  have h3: "[4 :: byte] \<noteq> []" by simp
  have h4: "length [4 :: byte] \<le> length (replicate leakyBufSize (0 :: byte))"
    by (simp add: leakyBufSize_def)
  note T = tcp_error_logging [OF h1 h2 h3 h4]
  have c1: "error_logs (snd (downstream ([Recv (Inr [7, 8]) False None] @
      Recv (Inr [9]) False
        (Some (Err ''write tcp 10.0.0.1:1080: use of closed network connection'')) # []))) = []"
    using T [where ?m1.0 = "''write tcp 10.0.0.1:1080: ''" and ?m2.0 = "[]" and p = "[9]"
        and canceled = False and rs' = "[]"]
    by simp
  have c2: "error_logs (snd (downstream ([Recv (Inr [7, 8]) False None] @
      Recv (Inr [9]) False (Some (Err ''broken pipe'')) # []))) =
     [(''conn write err: %s'', ''broken pipe'')]"
    using T [where ?e2.0 = "Err ''broken pipe''" and p = "[9]" and canceled = False and rs' = "[]"]
    by simp
  have c3: "error_logs (snd (downstream ([Recv (Inr [7, 8]) False None] @
      Recv (Inl EOF) False None # []))) = []"
    using T [where ?e1.0 = EOF and canceled = False and w = None and rs' = "[]"] by simp
  have c4: "error_logs (snd (downstream ([Recv (Inr [7, 8]) False None] @
      Recv (Inl (Err ''rpc error: code = Canceled'')) True None # []))) = []"
    using T [where ?e1.0 = "Err ''rpc error: code = Canceled''" and canceled = True
        and w = None and rs' = "[]"]
    by simp
  have c5: "error_logs (snd (downstream ([Recv (Inr [7, 8]) False None] @
      Recv (Inl (Err ''rpc error: code = Unavailable'')) False None # []))) =
     [(''stream recv err: %s'', ''rpc error: code = Unavailable'')]"
    using T [where ?e1.0 = "Err ''rpc error: code = Unavailable''" and canceled = False
        and w = None and rs' = "[]"]
    by simp
  have c6: "error_logs (snd (upstream (replicate leakyBufSize 0) ([Read [1, 2, 3] None None] @
      Read [4] None (Some (Err ''rpc error: code = Unavailable'')) # []))) =
     [(''stream send err: %s'', ''rpc error: code = Unavailable'')]"
    using T [where ?e3.0 = "Err ''rpc error: code = Unavailable''" and rerr = None and us' = "[]"]
    by simp
  have c7: "fst (upstream (replicate leakyBufSize 0) ([Read [1, 2, 3] None None] @
      Read [] (Some (Err ''read tcp 10.0.0.1:1080: use of closed network connection'')) None
      # [])) =
     Break (ReadErr (Err ''read tcp 10.0.0.1:1080: use of closed network connection'')) \<and>
   error_logs (snd (upstream (replicate leakyBufSize 0) ([Read [1, 2, 3] None None] @
      Read [] (Some (Err ''read tcp 10.0.0.1:1080: use of closed network connection'')) None
      # []))) = []"
    using T [where ?e4.0 = "Err ''read tcp 10.0.0.1:1080: use of closed network connection''"
        and serr = None and us' = "[]"]
    by simp
  show ?thesis using c1 c2 c3 c4 c5 c6 c7 by blast
qed

subsection \<open>The buffer of the pool\<close>

lemma upstream_no_pool: "Get \<notin> set (snd (upstream bf rs)) \<and> Put \<notin> set (snd (upstream bf rs))"
proof (induction rs arbitrary: bf)
  case Nil
  then show ?case by simp
next
  case (Cons r rs)
  obtain d rerr serr where r: "r = Read d rerr serr" by (cases r)
  show ?case using Cons.IH
    by (auto simp: r Let_def split: option.splits)
qed

lemma count_upstream [simp]:
  "count_list (snd (upstream bf rs)) Get = 0" "count_list (snd (upstream bf rs)) Put = 0"
  using upstream_no_pool [of bf rs] by (simp_all add: count_list_0_iff)

lemma relay_counts:
  "count_list (snd (relay env a)) Get = 1"
  "count_list (snd (relay env a)) Put = (if fst (relay env a) = Running then 0 else 1)"
  using count_upstream [of "pool_buff env" "reads env"]
  by (cases "upstream (pool_buff env) (reads env)"; cases "fst (upstream (pool_buff env) (reads env))";
      simp add: relay_def)+

lemma relay_order:
  "fst (relay env a) \<noteq> Running \<Longrightarrow>
   \<exists>pre mid post. snd (relay env a) = pre @ Get # mid @ Put # post"
  apply (cases "upstream (pool_buff env) (reads env)";
         cases "fst (upstream (pool_buff env) (reads env))")
    apply (simp_all add: relay_def)
   apply (metis append_Cons append_Nil)
  apply (metis append_Cons append_Nil)
  done

lemma tcp_no_session_no_buffer:
  "\<not> established env \<Longrightarrow>
   count_list (snd (tcpHandler env)) Get = 0 \<and> count_list (snd (tcpHandler env)) Put = 0"
  by (auto simp: tcpHandler_def established_def split: sum.splits option.splits)

text \<open>
  C5. For every TCP session, that is every run of \<open>tcpHandler\<close> that gets its stream and
  sends the destination frame, exactly one buffer is taken from the pool, and it is held
  while the session runs; when the session ends, on whichever path the loop is left (a read
  error, among them the one that follows the close of the socket at end-of-stream, a send
  error, a panic), it is put back exactly once, after it was taken.
\<close>

theorem tcp_buffer_discipline:
  assumes "established env"
  shows "count_list (snd (tcpHandler env)) Get = 1 \<and>
         count_list (snd (tcpHandler env)) Put =
           (if fst (tcpHandler env) = Running then 0 else 1) \<and>
         (fst (tcpHandler env) \<noteq> Running \<longrightarrow>
            (\<exists>pre mid post. snd (tcpHandler env) = pre @ Get # mid @ Put # post))"
proof -
  from assms obtain a where a: "req_addr env = Inr a"
    and ok: "reply_err env = None" "client_err env = None" "pipeline_err env = None"
            "first_send_err env = None"
    by (auto simp: established_def split: sum.splits)
  have run: "tcpHandler env =
      emit [GetReqAddr, ConnWrite socks_reply None, GRPCClient, Pipeline,
            StreamSend (bytes_of a) None] (relay env a)"
    by (simp add: tcpHandler_def a ok emit_def)
  have order: "\<exists>pre mid post. snd (tcpHandler env) = pre @ Get # mid @ Put # post"
    if "fst (tcpHandler env) \<noteq> Running"
  proof -
    from that run have "fst (relay env a) \<noteq> Running" by simp
    from relay_order [OF this] obtain pre mid post where
      "snd (relay env a) = pre @ Get # mid @ Put # post" by blast
    then have "snd (tcpHandler env) =
        ([GetReqAddr, ConnWrite socks_reply None, GRPCClient, Pipeline,
          StreamSend (bytes_of a) None] @ pre) @ Get # mid @ Put # post"
      by (simp add: run)
    then show ?thesis by blast
  qed
  show ?thesis using order by (simp add: run relay_counts)
qed

theorem tcp_buffer_discipline_witness:
  "established env1 \<and> fst (tcpHandler env1) = Returned \<and>
   count_list (snd (tcpHandler env1)) Get = 1 \<and> count_list (snd (tcpHandler env1)) Put = 1"
proof -
  have h: "established env1" by (simp add: established_def env1_def)
  have r: "fst (tcpHandler env1) = Returned"
    by (simp add: env1_def leakyBufSize_def tcpHandler_def relay_def emit_def Let_def)
  show ?thesis using h r tcp_buffer_discipline [OF h] by simp
qed

subsection \<open>The first frame and the reply to CONNECT\<close>

lemma tcp_first_frame:
  "req_addr env = Inr a \<Longrightarrow>
   take 1 (sent (snd (tcpHandler env))) =
     (if reply_err env = None \<and> client_err env = None \<and> pipeline_err env = None
      then [bytes_of a] else [])"
  by (auto simp: tcpHandler_def split: option.splits)


text \<open>
  C9. For every CONNECT session whose destination address parses, the relay writes the
  fixed ten-byte SOCKS5 success reply (version 5, success, bound address 0.0.0.0:0) to the
  client before any step of the remote leg: the write is the second event of the run, right
  after the parse, neither of the two is a step of the remote leg, and a run has a step of
  the remote leg only if that write has returned \<open>nil\<close>.
\<close>

theorem tcp_reply_before_remote_leg:
  assumes "req_addr env = Inr a"
  shows "take 2 (snd (tcpHandler env)) =
           [GetReqAddr, ConnWrite [5, 0, 0, 1, 0, 0, 0, 0, 0, 0] (reply_err env)] \<and>
         list_all (\<lambda>ev. \<not> remote_leg ev) (take 2 (snd (tcpHandler env))) \<and>
         (list_ex remote_leg (snd (tcpHandler env)) \<longrightarrow> reply_err env = None)"
  using assms by (simp add: tcpHandler_def socks_reply_def split: option.splits)

theorem tcp_reply_before_remote_leg_witness:
  "req_addr env1 = Inr ''example.com:80'' \<and>
   take 2 (snd (tcpHandler env1)) = [GetReqAddr, ConnWrite [5, 0, 0, 1, 0, 0, 0, 0, 0, 0] None] \<and>
   list_ex remote_leg (snd (tcpHandler env1)) \<and> reply_err env1 = None"
proof -
  have h: "req_addr env1 = Inr ''example.com:80''" by (simp add: env1_def)
  have x: "list_ex remote_leg (snd (tcpHandler env1))"
    by (simp add: env1_def tcpHandler_def)
  show ?thesis using h x tcp_reply_before_remote_leg [OF h] by simp
qed

section \<open>Properties of the UDP relay\<close>

subsection \<open>The reply to UDP ASSOCIATE\<close>

lemma int16_bytes:
  assumes "0 \<le> p" "p \<le> 65535"
  shows "uint (ucast (drop_bit 8 (int16 p)) :: byte) * 256 + uint (ucast (int16 p) :: byte) = p"
proof -
  have u: "unat (int16 p) = nat p"
    using assms by (simp add: int16_def unsigned_of_int take_bit_eq_mod)
  have lo: "unat (ucast (int16 p) :: byte) = nat p mod 256"
    using u by (simp add: unsigned_ucast_eq take_bit_eq_mod)
  have "unat (drop_bit 8 (int16 p)) = drop_bit 8 (unat (int16 p))"
    by (rule unat_drop_bit_eq)
  then have d: "unat (drop_bit 8 (int16 p)) = nat p div 256"
    by (simp only: u drop_bit_eq_div) simp
  have "nat p div 256 < 256" using assms by simp
  with d have hi: "unat (ucast (drop_bit 8 (int16 p)) :: byte) = nat p div 256"
    by (simp add: unsigned_ucast_eq take_bit_eq_mod)
  have "int (nat p div 256) * 256 + int (nat p mod 256) = p"
    using assms(1) by (simp add: zdiv_int zmod_int)
  then have "int (unat (ucast (drop_bit 8 (int16 p)) :: byte)) * 256 +
        int (unat (ucast (int16 p) :: byte)) = p"
    by (simp only: lo hi)
  then show ?thesis by simp
qed

text \<open>
  C8. For every UDP association and every bound local port \<open>p\<close> from 0 to 65535, the one
  thing written to the client, the reply to UDP ASSOCIATE, is the ten bytes 0x05 0x00 0x00
  0x01, four zero host bytes, then the two bytes of \<open>p\<close>, high byte first: narrowing the port
  to \<open>int16\<close> keeps its two-byte big-endian encoding, for the ports from 32768 on as well.
\<close>

theorem udp_reply_port:
  assumes "u_req_err env = None" and "listen env = Inr p" and "0 \<le> p" and "p \<le> 65535"
  shows "\<exists>hi lo. written (snd (udp_open env)) = [[5, 0, 0, 1, 0, 0, 0, 0, hi, lo]] \<and>
                 uint hi * 256 + uint lo = p"
proof -
  have "written (snd (udp_open env)) = [replay p]"
    using assms(1,2) by (simp add: udp_open_def split: option.splits)
  moreover have "replay p = [5, 0, 0, 1, 0, 0, 0, 0,
      ucast (drop_bit 8 (int16 p)), ucast (int16 p)]"
    by (simp add: replay_def BigEndian_int16_def)
  ultimately show ?thesis using int16_bytes [OF assms(3,4)] by auto
qed

theorem udp_reply_port_witness:
  "u_req_err uenv7 = None \<and> listen uenv7 = Inr 40000 \<and>
   (0::int) \<le> 40000 \<and> (40000::int) \<le> 65535 \<and> sint (int16 40000) = - 25536 \<and>
   written (snd (udp_open uenv7)) = [[5, 0, 0, 1, 0, 0, 0, 0, 156, 64]] \<and>
   (\<exists>hi lo. written (snd (udp_open uenv7)) = [[5, 0, 0, 1, 0, 0, 0, 0, hi, lo]] \<and>
            uint hi * 256 + uint lo = 40000)"
proof -
  have h1: "u_req_err uenv7 = None" and h2: "listen uenv7 = Inr 40000"
    by (simp_all add: uenv7_def)
  have w: "written (snd (udp_open uenv7)) = [[5, 0, 0, 1, 0, 0, 0, 0, 156, 64]]"
    by (simp add: uenv7_def udp_open_def replay_def BigEndian_int16_def int16_def)
  have s: "sint (int16 40000) = - 25536"
    by (simp add: int16_def)
  show ?thesis
    using h1 h2 w s udp_reply_port [OF h1 h2] by simp
qed

subsection \<open>The read deadline\<close>













subsection \<open>The frames of an association\<close>

lemma of_char_char_of_byte [simp]: "(of_char (char_of (n::nat)) :: byte) = of_nat (n mod 256)"
proof -
  have "(of_char (char_of n) :: byte) = of_nat (of_char (char_of n) :: nat)"
    by (simp only: of_nat_of_char)
  then show ?thesis by simp
qed

lemmas udp_run =
  udpHandler_def udp_open_def emit_def init_def main_step_def read_step_def test_step_def
  timed_out_def task_step_def send_def leave_def domain_lib_def domain_SplitAddr_def
  domain_String_def bytes_of_def uenv4_def dgX_def dgY_def Let_def

lemma in_turn_two:
  "in_turn 0 2 =
     [Loop, Loop, Goroutine 0, Goroutine 0, Goroutine 0, Goroutine 0,
      Loop, Loop, Goroutine 1, Goroutine 1, Goroutine 1, Goroutine 1]"
proof -
  have "in_turn 0 (Suc (Suc 0)) =
     [Loop, Loop, Goroutine 0, Goroutine 0, Goroutine 0, Goroutine 0,
      Loop, Loop, Goroutine 1, Goroutine 1, Goroutine 1, Goroutine 1]"
    by simp
  then show ?thesis by (simp only: numeral_2_eq_2)
qed

text \<open>
  C4 on the code. Two datagrams for \<open>a:53\<close> come together, with the data bytes 88 and 89.
  When each goroutine runs before the loop reads again, the stream gets the destination,
  then 88, then 89. When the loop reads the second datagram before the goroutine of the
  first has run, which nothing in the code prevents, both goroutines read the second
  datagram out of the shared buffer: the stream gets the destination, then 89 twice, and
  never 88.
\<close>

theorem udp_burst_frames:
  "sent (trace (udpHandler domain_lib uenv4 (in_turn 0 2))) = [bytes_of ''a:53'', [88], [89]] \<and>
   sent (trace (udpHandler domain_lib uenv4
     [Loop, Loop, Loop, Loop, Goroutine 0, Goroutine 0, Goroutine 0, Goroutine 0,
      Goroutine 1, Goroutine 1, Goroutine 1, Goroutine 1])) = [bytes_of ''a:53'', [89], [89]]"
proof
  show "sent (trace (udpHandler domain_lib uenv4 (in_turn 0 2))) =
        [bytes_of ''a:53'', [88], [89]]"
    by (simp only: in_turn_two) (simp add: udp_run)
  show "sent (trace (udpHandler domain_lib uenv4
     [Loop, Loop, Loop, Loop, Goroutine 0, Goroutine 0, Goroutine 0, Goroutine 0,
      Goroutine 1, Goroutine 1, Goroutine 1, Goroutine 1])) = [bytes_of ''a:53'', [89], [89]]"
    by (simp add: udp_run)
qed

text \<open>
  C3 on the code, for the UDP path. With the same two datagrams: the goroutine of the first
  sets \<open>first\<close> and, before it has sent the destination, the goroutine of the second finds
  \<open>first\<close> set and sends its data. The first frame of the stream is then the data byte 89,
  and the destination is the second frame.
\<close>

theorem udp_first_frame_race:
  "sent (trace (udpHandler domain_lib uenv4
     [Loop, Loop, Goroutine 0, Goroutine 0, Loop, Loop, Goroutine 1, Goroutine 1, Goroutine 1,
      Goroutine 0, Goroutine 0])) = [[89], bytes_of ''a:53'', [89]]"
  by (simp add: udp_run)

end
